theory Spec2Isabelle
  imports Main "HOL-Library.Word"
begin

section \<open>The backup engine of create-dropbox-backup-folder\<close>

text \<open>
  A shallow embedding of \<^verbatim>\<open>internal/backup/engine.go\<close>: the exclusion filter, the skip
  decision, the concurrent download phase, the orphan deletion, the orchestration of
  \<^verbatim>\<open>Run\<close> and the byte formatter. Go's \<^verbatim>\<open>uint64\<close> and \<^verbatim>\<open>int64\<close> are 64-bit words,
  errors are values, every effect on the local file system or on the statistics is
  explicit state, and the goroutines of the download phase are a step function driven
  by a schedule.
\<close>

subsection \<open>Machine integers, errors, time\<close>

type_synonym uint64 = "64 word"

text \<open>An \<^verbatim>\<open>int64\<close> is the same 64 bits, read as two's complement by \<^term>\<open>sint\<close>.\<close>

type_synonym int64 = "64 word"

text \<open>
  A Go error: a message, or \<^verbatim>\<open>fmt.Errorf("msg: %w", err)\<close>, which wraps an error
  in a message. \<^verbatim>\<open>nil\<close> is \<^term>\<open>None\<close> of \<^typ>\<open>'a option\<close>.
\<close>

datatype error = Err string | Wrap string error

text \<open>
  \<^verbatim>\<open>time.Time\<close> without a monotonic reading (file times and the times of the remote
  metadata have none): the seconds since January 1 of year 1, and the nanoseconds
  within the second. The zero value is that instant.
\<close>

record Time =
  sec :: int
  nsec :: nat

definition IsZero :: "Time \<Rightarrow> bool" where
  "IsZero t = (sec t = 0 \<and> nsec t = 0)"

definition After :: "Time \<Rightarrow> Time \<Rightarrow> bool" where
  "After t u = (sec t > sec u \<or> (sec t = sec u \<and> nsec t > nsec u))"

definition Equal :: "Time \<Rightarrow> Time \<Rightarrow> bool" where
  "Equal t u = (sec t = sec u \<and> nsec t = nsec u)"

subsection \<open>Strings and paths\<close>

definition HasPrefix :: "string \<Rightarrow> string \<Rightarrow> bool" where
  "HasPrefix s p = (take (length p) s = p)"

definition HasSuffix :: "string \<Rightarrow> string \<Rightarrow> bool" where
  "HasSuffix s x = (length x \<le> length s \<and> drop (length s - length x) s = x)"

definition TrimPrefix :: "string \<Rightarrow> string \<Rightarrow> string" where
  "TrimPrefix s p = (if HasPrefix s p then drop (length p) s else s)"

fun Contains :: "string \<Rightarrow> string \<Rightarrow> bool" where
  "Contains [] sub = (sub = [])"
| "Contains (c # cs) sub = (if HasPrefix (c # cs) sub then True else Contains cs sub)"

text \<open>
  \<^verbatim>\<open>filepath.Base\<close> on a system whose separator is the slash: the last element of
  the path, after the trailing slashes are removed.
\<close>

definition Base :: "string \<Rightarrow> string" where
  "Base path =
     (if path = [] then ''.''
      else let stripped = rev (dropWhile (\<lambda>c. c = CHR ''/'') (rev path));
               elem = rev (takeWhile (\<lambda>c. c \<noteq> CHR ''/'') (rev stripped))
           in if elem = [] then ''/'' else elem)"

text \<open>
  The two functions of \<^verbatim>\<open>path/filepath\<close> that the engine takes from the standard
  library as they are: \<^verbatim>\<open>Match\<close> gives the \<^verbatim>\<open>matched\<close> result of
  \<^verbatim>\<open>filepath.Match(pattern, name)\<close> (the engine drops its error, and \<^verbatim>\<open>matched\<close>
  is false with an error), \<^verbatim>\<open>Join\<close> is \<^verbatim>\<open>filepath.Join\<close> of two elements.
  Every theorem holds for any such pair of functions.
\<close>

record filepath =
  Match :: "string \<Rightarrow> string \<Rightarrow> bool"
  Join :: "string \<Rightarrow> string \<Rightarrow> string"

text \<open>
  An instance for concrete runs: shell patterns built from literal characters,
  \<^verbatim>\<open>*\<close> (any run of characters other than the slash) and \<^verbatim>\<open>?\<close> (one character
  other than the slash), and the join of two clean elements.
\<close>

fun glob :: "string \<Rightarrow> string \<Rightarrow> bool" where
  "glob [] name = (name = [])"
| "glob (p # ps) [] = (if p = CHR ''*'' then glob ps [] else False)"
| "glob (p # ps) (c # cs) =
     (if p = CHR ''*'' then (if glob ps (c # cs) then True
                            else if c = CHR ''/'' then False else glob (p # ps) cs)
      else if p = CHR ''?'' then (if c = CHR ''/'' then False else glob ps cs)
      else if p = c then glob ps cs else False)"

definition unix :: filepath where
  "unix = \<lparr> Match = glob,
            Join = (\<lambda>a b. if b = [] then a else if a = [] then b else a @ ''/'' @ b) \<rparr>"

subsection \<open>The data of the engine\<close>

record FileInfo =
  Path :: string
  Name :: string
  Size :: uint64
  ModTime :: Time
  IsFolder :: bool
  ContentHash :: string
  Rev :: string

record Config =
  BackupDir :: string
  Delete :: bool
  Exclude :: "string list"
  ShowCount :: bool
  ShowSize :: bool
  MaxConcurrency :: int

text \<open>
  The statistics of a run. The counters of Go's type \<^verbatim>\<open>int\<close> are integers here: a
  run counts files, far below \<open>2 ^ 63\<close>. \<^verbatim>\<open>TotalBytes\<close> is a \<^verbatim>\<open>uint64\<close>.
\<close>

record Stats =
  TotalFiles :: int
  TotalFolders :: int
  DownloadedFiles :: int
  SkippedFiles :: int
  DeletedFiles :: int
  TotalBytes :: uint64
  StartTime :: Time
  EndTime :: Time

text \<open>
  What \<^verbatim>\<open>os.Stat\<close> reports of a local path (\<^verbatim>\<open>Size()\<close>, \<^verbatim>\<open>ModTime()\<close>,
  \<^verbatim>\<open>IsDir()\<close>), and the local file system as a map from paths; \<^verbatim>\<open>os.Stat\<close> fails
  on a path the map does not hold.
\<close>

record FileStat =
  st_size :: int64
  st_modTime :: Time
  st_isDir :: bool

type_synonym filesystem = "string \<rightharpoonup> FileStat"

definition os_Stat :: "filesystem \<Rightarrow> string \<Rightarrow> FileStat option" where
  "os_Stat fs path = fs path"

subsection \<open>formatBytes\<close>

text \<open>
  The loop \<^verbatim>\<open>for n := bytes / unit; n >= unit; n /= unit { div *= unit; exp++ }\<close>
  on \<^verbatim>\<open>uint64\<close> values (\<^verbatim>\<open>div *= unit\<close> wraps as Go's multiplication does).
\<close>

function formatBytes_loop :: "uint64 \<Rightarrow> uint64 \<Rightarrow> nat \<Rightarrow> uint64 \<times> nat" where
  "formatBytes_loop n dv exp =
     (if n \<ge> 1024 then formatBytes_loop (n div 1024) (dv * 1024) (exp + 1) else (dv, exp))"
  by pat_completeness auto
termination
proof (relation "measure (\<lambda>(n, dv, exp). unat n)")
  show "wf (measure (\<lambda>(n, dv, exp). unat n))" by simp
next
  fix n dv :: uint64 and exp :: nat
  assume "1024 \<le> n"
  then have "1024 \<le> unat n" by (simp add: word_le_nat_alt)
  then have "unat n div 1024 < unat n" by simp
  then show "((n div 1024, dv * 1024, exp + 1), (n, dv, exp)) \<in> measure (\<lambda>(n, dv, exp). unat n)"
    by (simp add: unat_div)
qed

declare formatBytes_loop.simps [simp del]

text \<open>
  The result of \<^verbatim>\<open>formatBytes\<close>: the arguments handed to \<^verbatim>\<open>fmt.Sprintf\<close>, since the
  text of a \<^verbatim>\<open>float64\<close> is not modelled: \<^verbatim>\<open>"%d B"\<close> of the byte count, or
  \<^verbatim>\<open>"%.1f %cB"\<close> of the byte count over the divisor and the unit letter. Indexing
  the string \<^verbatim>\<open>"KMGTPE"\<close> out of range panics.
\<close>

datatype formatted = PlainBytes uint64 | Scaled uint64 uint64 char

datatype panic = IndexOutOfRange

definition formatBytes :: "uint64 \<Rightarrow> panic + formatted" where
  "formatBytes bytes =
     (if bytes < 1024 then Inr (PlainBytes bytes)
      else let (dv, exp) = formatBytes_loop (bytes div 1024) 1024 0
           in if exp < length ''KMGTPE'' then Inr (Scaled bytes dv (''KMGTPE'' ! exp))
              else Inl IndexOutOfRange)"

subsection \<open>The skip decision\<close>

text \<open>
  \<^verbatim>\<open>int64(remoteFile.Size)\<close> keeps the 64 bits of the \<^verbatim>\<open>uint64\<close>; the comparison
  with \<^verbatim>\<open>stat.Size()\<close> is then the equality of the two words.
\<close>

definition shouldSkipFile :: "filesystem \<Rightarrow> string \<Rightarrow> FileInfo \<Rightarrow> bool" where
  "shouldSkipFile fs localPath remoteFile =
     (case os_Stat fs localPath of
        None \<Rightarrow> False
      | Some stat \<Rightarrow>
          if \<not> IsZero (ModTime remoteFile) \<and> After (st_modTime stat) (ModTime remoteFile)
          then True
          else if st_size stat = Size remoteFile \<and> \<not> IsZero (ModTime remoteFile)
                  \<and> Equal (st_modTime stat) (ModTime remoteFile)
          then True
          else False)"

subsection \<open>The exclusion filter\<close>

text \<open>The source returns false for every path and every exclusion file.\<close>

definition isInExcludeFile :: "string \<Rightarrow> string \<Rightarrow> bool" where
  "isInExcludeFile path excludeFile = False"

text \<open>The loop of \<^verbatim>\<open>shouldExclude\<close> over the patterns left to try.\<close>

fun shouldExclude_loop :: "filepath \<Rightarrow> string \<Rightarrow> string list \<Rightarrow> bool" where
  "shouldExclude_loop fp path [] = False"
| "shouldExclude_loop fp path (pattern # rest) =
     (if HasPrefix pattern ''@'' then
        (if isInExcludeFile path (TrimPrefix pattern ''@'') then True
         else shouldExclude_loop fp path rest)
      else if HasSuffix pattern ''/'' then
        (if HasPrefix path pattern \<or> Contains path (''/'' @ pattern) then True
         else shouldExclude_loop fp path rest)
      else if Match fp pattern (Base path) then True
      else if Match fp pattern path then True
      else shouldExclude_loop fp path rest)"

definition shouldExclude :: "filepath \<Rightarrow> Config \<Rightarrow> string \<Rightarrow> bool" where
  "shouldExclude fp cfg path = shouldExclude_loop fp path (Exclude cfg)"

text \<open>The loop of \<^verbatim>\<open>filterFiles\<close>, appending to \<^verbatim>\<open>filtered\<close>.\<close>

fun filterFiles_loop :: "filepath \<Rightarrow> Config \<Rightarrow> FileInfo list \<Rightarrow> FileInfo list \<Rightarrow> FileInfo list" where
  "filterFiles_loop fp cfg [] filtered = filtered"
| "filterFiles_loop fp cfg (file # rest) filtered =
     (if \<not> shouldExclude fp cfg (Path file) then filterFiles_loop fp cfg rest (filtered @ [file])
      else filterFiles_loop fp cfg rest filtered)"

definition filterFiles :: "filepath \<Rightarrow> Config \<Rightarrow> FileInfo list \<Rightarrow> FileInfo list" where
  "filterFiles fp cfg files =
     (if length (Exclude cfg) = 0 then files else filterFiles_loop fp cfg files [])"

subsection \<open>The download phase\<close>

definition localPath :: "filepath \<Rightarrow> Config \<Rightarrow> FileInfo \<Rightarrow> string" where
  "localPath fp cfg file = Join fp (BackupDir cfg) (TrimPrefix (Path file) ''/'')"

text \<open>
  What the world answers to one call of \<^verbatim>\<open>downloadFile\<close>: the errors of
  \<^verbatim>\<open>os.MkdirAll\<close>, of the client's \<^verbatim>\<open>Download\<close>, of \<^verbatim>\<open>os.Create\<close>, of \<^verbatim>\<open>io.Copy\<close>
  and of \<^verbatim>\<open>os.Chtimes\<close> (\<^term>\<open>None\<close> is \<^verbatim>\<open>nil\<close>), the number of bytes
  \<^verbatim>\<open>io.Copy\<close> wrote, and the modification time the file gets by being written.
\<close>

record FileIO =
  mkdirAllErr :: "error option"
  downloadErr :: "error option"
  createErr :: "error option"
  writeTime :: Time
  written :: int64
  copyErr :: "error option"
  chtimesErr :: "error option"

text \<open>
  Where a download goroutine stands:
  \<^item> \<open>Queued\<close>: at the \<^verbatim>\<open>select\<close>, waiting for a slot of the semaphore or for
    \<^verbatim>\<open>ctx.Done()\<close>;
  \<^item> \<open>Aborting\<close>: in the \<^verbatim>\<open>ctx.Done()\<close> branch, before \<^verbatim>\<open>errChan <- ctx.Err()\<close>;
  \<^item> \<open>Acquired\<close>: holding a slot, before \<^verbatim>\<open>downloadFile\<close> calls \<^verbatim>\<open>shouldSkipFile\<close>;
  \<^item> \<open>SkipLoad\<close>, \<open>SkipStore v\<close>: before the read and before the write of
    \<^verbatim>\<open>stats.SkippedFiles++\<close>;
  \<^item> \<open>Fetch\<close>: before \<^verbatim>\<open>os.MkdirAll\<close>, the client's \<^verbatim>\<open>Download\<close> and \<^verbatim>\<open>os.Create\<close>;
  \<^item> \<open>Copy\<close>: before \<^verbatim>\<open>io.Copy\<close>; \<open>Chtimes\<close>: before \<^verbatim>\<open>os.Chtimes\<close>;
  \<^item> \<open>DlLoad\<close>, \<open>DlStore v\<close>: before the read and before the write of
    \<^verbatim>\<open>stats.DownloadedFiles++\<close>;
  \<^item> \<open>BytesLoad\<close>, \<open>BytesStore v\<close>: before the read and before the write of
    \<^verbatim>\<open>stats.TotalBytes += uint64(written)\<close>;
  \<^item> \<open>Finishing r\<close>: \<^verbatim>\<open>downloadFile\<close> has returned \<open>r\<close>;
  \<^item> \<open>Done\<close>: the goroutine has called \<^verbatim>\<open>wg.Done()\<close>.

  The three statements on the shared \<^verbatim>\<open>*Stats\<close> are plain Go statements, with no
  lock and no atomic operation: a read of the field, then a write of the value read
  plus the increment; the goroutine holds the value read in between. Between two
  steps of a goroutine any other goroutine may run.
\<close>

datatype pc =
    Queued
  | Aborting
  | Acquired
  | SkipLoad
  | SkipStore int
  | Fetch
  | Copy
  | Chtimes
  | DlLoad
  | DlStore int
  | BytesLoad
  | BytesStore uint64
  | Finishing "error option"
  | Done

text \<open>
  The state of \<^verbatim>\<open>downloadFiles\<close>: the local file system, the shared statistics, one
  program counter for each goroutine started, the number of tokens in
  \<^verbatim>\<open>e.semaphore\<close>, the values buffered in \<^verbatim>\<open>errChan\<close> (oldest first) and whether it
  is closed, \<^verbatim>\<open>ctx.Err()\<close>, the paths \<^verbatim>\<open>os.Create\<close> has created so far, and what
  \<^verbatim>\<open>downloadFiles\<close> has returned, if it has.
\<close>

record DState =
  disk :: filesystem
  counters :: Stats
  pcs :: "pc list"
  semaphore :: nat
  errChan :: "error option list"
  closed :: bool
  ctxErr :: "error option"
  created :: "string list"
  returned :: "error option option"

text \<open>
  One step of \<^verbatim>\<open>downloadFile\<close> for one file, from the program counter given: the new
  program counter and the new state. \<^term>\<open>Finishing r\<close> is the return of \<^verbatim>\<open>r\<close>.
\<close>

fun downloadFile_step ::
  "filepath \<Rightarrow> Config \<Rightarrow> FileInfo \<Rightarrow> FileIO \<Rightarrow> pc \<Rightarrow> DState \<Rightarrow> pc \<times> DState" where
  "downloadFile_step fp cfg file io Acquired s =
     (if shouldSkipFile (disk s) (localPath fp cfg file) file then (SkipLoad, s) else (Fetch, s))"
| "downloadFile_step fp cfg file io SkipLoad s = (SkipStore (SkippedFiles (counters s)), s)"
| "downloadFile_step fp cfg file io (SkipStore v) s =
     (Finishing None, s\<lparr>counters := (counters s)\<lparr>SkippedFiles := v + 1\<rparr>\<rparr>)"
| "downloadFile_step fp cfg file io Fetch s =
     (case mkdirAllErr io of
        Some err \<Rightarrow> (Finishing (Some (Wrap ''failed to create directory'' err)), s)
      | None \<Rightarrow>
         (case downloadErr io of
            Some err \<Rightarrow> (Finishing (Some (Wrap ''failed to download from Dropbox'' err)), s)
          | None \<Rightarrow>
             (case createErr io of
                Some err \<Rightarrow> (Finishing (Some (Wrap ''failed to create local file'' err)), s)
              | None \<Rightarrow>
                 (Copy, s\<lparr>disk := (disk s)(localPath fp cfg file \<mapsto>
                                    \<lparr>st_size = 0, st_modTime = writeTime io, st_isDir = False\<rparr>),
                           created := created s @ [localPath fp cfg file]\<rparr>))))"
| "downloadFile_step fp cfg file io Copy s =
     (let s' = s\<lparr>disk := (disk s)(localPath fp cfg file \<mapsto>
                      \<lparr>st_size = written io, st_modTime = writeTime io, st_isDir = False\<rparr>)\<rparr>
      in case copyErr io of
           Some err \<Rightarrow> (Finishing (Some (Wrap ''failed to write file content'' err)), s')
         | None \<Rightarrow> (Chtimes, s'))"
| "downloadFile_step fp cfg file io Chtimes s =
     (if \<not> IsZero (ModTime file) then
        (case chtimesErr io of
           Some err \<Rightarrow> (DlLoad, s)
         | None \<Rightarrow>
            (DlLoad, s\<lparr>disk := (disk s)(localPath fp cfg file :=
                       map_option (\<lambda>st. st\<lparr>st_modTime := ModTime file\<rparr>)
                         (disk s (localPath fp cfg file)))\<rparr>))
      else (DlLoad, s))"
| "downloadFile_step fp cfg file io DlLoad s = (DlStore (DownloadedFiles (counters s)), s)"
| "downloadFile_step fp cfg file io (DlStore v) s =
     (BytesLoad, s\<lparr>counters := (counters s)\<lparr>DownloadedFiles := v + 1\<rparr>\<rparr>)"
| "downloadFile_step fp cfg file io BytesLoad s = (BytesStore (TotalBytes (counters s)), s)"
| "downloadFile_step fp cfg file io (BytesStore v) s =
     (Finishing None, s\<lparr>counters := (counters s)\<lparr>TotalBytes := v + written io\<rparr>\<rparr>)"
| "downloadFile_step fp cfg file io Queued s = (Queued, s)"
| "downloadFile_step fp cfg file io Aborting s = (Aborting, s)"
| "downloadFile_step fp cfg file io (Finishing r) s = (Finishing r, s)"
| "downloadFile_step fp cfg file io Done s = (Done, s)"

text \<open>
  One step of goroutine \<open>k\<close>, started for \<open>file\<close>. At \<^term>\<open>Queued\<close> it sends a
  token to the semaphore, which \<^verbatim>\<open>make(chan struct{}, cfg.MaxConcurrency)\<close> lets
  through while it holds fewer tokens than its capacity. At \<^term>\<open>Aborting\<close> it has
  taken the \<^verbatim>\<open>ctx.Done()\<close> branch and sends \<^verbatim>\<open>ctx.Err()\<close>. At \<^term>\<open>Finishing r\<close> it
  sends the wrapped error if \<open>r\<close> is one, and the deferred calls take the token back
  and call \<^verbatim>\<open>wg.Done()\<close>. A send on \<^verbatim>\<open>errChan\<close> waits while the buffer, of capacity
  \<open>cap\<close>, is full. A step that has to wait leaves the state as it is.
\<close>

definition worker_step ::
  "filepath \<Rightarrow> Config \<Rightarrow> nat \<Rightarrow> FileInfo \<Rightarrow> FileIO \<Rightarrow> nat \<Rightarrow> DState \<Rightarrow> DState" where
  "worker_step fp cfg cap file io k s =
     (case pcs s ! k of
        Queued \<Rightarrow>
          if int (semaphore s) < MaxConcurrency cfg
          then s\<lparr>semaphore := Suc (semaphore s), pcs := (pcs s)[k := Acquired]\<rparr>
          else s
      | Aborting \<Rightarrow>
          (case ctxErr s of
             None \<Rightarrow> s
           | Some err \<Rightarrow>
               if length (errChan s) < cap
               then s\<lparr>errChan := errChan s @ [Some err], pcs := (pcs s)[k := Done]\<rparr>
               else s)
      | Finishing r \<Rightarrow>
          (case r of
             None \<Rightarrow> s\<lparr>semaphore := semaphore s - 1, pcs := (pcs s)[k := Done]\<rparr>
           | Some err \<Rightarrow>
               if length (errChan s) < cap
               then s\<lparr>errChan := errChan s @ [Some (Wrap (''failed to download '' @ Path file) err)],
                      semaphore := semaphore s - 1, pcs := (pcs s)[k := Done]\<rparr>
               else s)
      | Done \<Rightarrow> s
      | pc \<Rightarrow>
          (case downloadFile_step fp cfg file io pc s of
             (pc', s') \<Rightarrow> s'\<lparr>pcs := (pcs s')[k := pc']\<rparr>))"

text \<open>
  What the scheduler can pick next: a step of goroutine \<open>k\<close>; goroutine \<open>k\<close>, waiting
  at the \<^verbatim>\<open>select\<close>, taking the \<^verbatim>\<open>ctx.Done()\<close> branch; the cancellation of the
  context; the goroutine that waits for the wait group and closes \<^verbatim>\<open>errChan\<close>; one
  turn of the caller's loop \<^verbatim>\<open>for err := range errChan\<close>.
\<close>

datatype event = Go nat | Abort nat | CtxDone error | WaitClose | Receive

fun step ::
  "filepath \<Rightarrow> Config \<Rightarrow> nat \<Rightarrow> FileInfo list \<Rightarrow> (nat \<Rightarrow> FileIO) \<Rightarrow> event \<Rightarrow> DState \<Rightarrow> DState" where
  "step fp cfg cap workers io (Go k) s =
     (if k < length workers then worker_step fp cfg cap (workers ! k) (io k) k s else s)"
| "step fp cfg cap workers io (Abort k) s =
     (if k < length workers \<and> pcs s ! k = Queued \<and> ctxErr s \<noteq> None
      then s\<lparr>pcs := (pcs s)[k := Aborting]\<rparr> else s)"
| "step fp cfg cap workers io (CtxDone err) s =
     (if ctxErr s = None then s\<lparr>ctxErr := Some err\<rparr> else s)"
| "step fp cfg cap workers io WaitClose s =
     (if list_all (\<lambda>pc. pc = Done) (pcs s) \<and> \<not> closed s then s\<lparr>closed := True\<rparr> else s)"
| "step fp cfg cap workers io Receive s =
     (case errChan s of
        [] \<Rightarrow> if closed s then s\<lparr>returned := Some None\<rparr> else s
      | err # rest \<Rightarrow>
          (case err of
             Some e \<Rightarrow> s\<lparr>errChan := rest, returned := Some (Some e)\<rparr>
           | None \<Rightarrow> s\<lparr>errChan := rest\<rparr>))"

text \<open>The events of a schedule, one after the other, until \<^verbatim>\<open>downloadFiles\<close> returns.\<close>

fun run_sched ::
  "filepath \<Rightarrow> Config \<Rightarrow> nat \<Rightarrow> FileInfo list \<Rightarrow> (nat \<Rightarrow> FileIO) \<Rightarrow> event list \<Rightarrow> DState \<Rightarrow> DState" where
  "run_sched fp cfg cap workers io [] s = s"
| "run_sched fp cfg cap workers io (ev # evs) s =
     (if returned s \<noteq> None then s
      else run_sched fp cfg cap workers io evs (step fp cfg cap workers io ev s))"

text \<open>
  \<^verbatim>\<open>downloadFiles\<close>: one goroutine for each entry that is no folder, \<^verbatim>\<open>errChan\<close> with
  room for \<^verbatim>\<open>len(files)\<close> values, the semaphore of a new engine. The state is the
  one at the moment \<^verbatim>\<open>downloadFiles\<close> returns; \<^term>\<open>returned\<close> is \<^term>\<open>None\<close> when
  the schedule ends with the caller still waiting on \<^verbatim>\<open>errChan\<close>.
\<close>

definition downloadFiles ::
  "filepath \<Rightarrow> Config \<Rightarrow> (nat \<Rightarrow> FileIO) \<Rightarrow> event list \<Rightarrow> FileInfo list \<Rightarrow> filesystem \<Rightarrow> Stats \<Rightarrow> DState" where
  "downloadFiles fp cfg io sched files fs0 stats0 =
     (let workers = filter (\<lambda>file. \<not> IsFolder file) files
      in run_sched fp cfg (length files) workers io sched
           \<lparr>disk = fs0, counters = stats0, pcs = replicate (length workers) Queued,
            semaphore = 0, errChan = [], closed = False, ctxErr = None, created = [],
            returned = None\<rparr>)"

text \<open>
  What holds of every state of the download phase with \<open>n\<close> goroutines: there are
  \<open>n\<close> program counters, \<^verbatim>\<open>downloadFiles\<close> has returned \<^verbatim>\<open>nil\<close> only if
  \<^verbatim>\<open>errChan\<close> is closed, and \<^verbatim>\<open>errChan\<close> is closed only if every goroutine is done.
\<close>

definition awaited :: "nat \<Rightarrow> DState \<Rightarrow> bool" where
  "awaited n s = (length (pcs s) = n \<and> (returned s = Some None \<longrightarrow> closed s)
      \<and> (closed s \<longrightarrow> list_all (\<lambda>pc. pc = Done) (pcs s)))"

subsection \<open>The deletion of orphaned files\<close>

text \<open>
  The \<^verbatim>\<open>map[string]bool\<close> of the local paths of the entries; a key the map does not
  hold reads as \<^verbatim>\<open>false\<close>.
\<close>

definition dropboxFileMap :: "filepath \<Rightarrow> Config \<Rightarrow> FileInfo list \<Rightarrow> (string \<rightharpoonup> bool)" where
  "dropboxFileMap fp cfg dropboxFiles =
     foldl (\<lambda>m file. m(localPath fp cfg file \<mapsto> True)) Map.empty dropboxFiles"

definition lookup :: "(string \<rightharpoonup> bool) \<Rightarrow> string \<Rightarrow> bool" where
  "lookup m path = (case m path of None \<Rightarrow> False | Some b \<Rightarrow> b)"

text \<open>
  One call of the function given to \<^verbatim>\<open>filepath.Walk\<close>: the path visited, whether it
  is a directory, the error the walk met there, and the error of \<^verbatim>\<open>os.Remove\<close> of
  that path, should the engine call it.
\<close>

record WalkEntry =
  w_path :: string
  w_isDir :: bool
  w_err :: "error option"
  w_removeErr :: "error option"

text \<open>
  The walk over the entries that \<^verbatim>\<open>filepath.Walk\<close> visits, in its order; it stops at
  the first error the function returns. The state is the file system, the statistics
  and the paths removed so far.
\<close>

fun walkFn ::
  "(string \<rightharpoonup> bool) \<Rightarrow> WalkEntry list \<Rightarrow> filesystem \<times> Stats \<times> string list
     \<Rightarrow> error option \<times> filesystem \<times> Stats \<times> string list" where
  "walkFn m [] st = (None, st)"
| "walkFn m (w # ws) (fs, stats, removed) =
     (case w_err w of
        Some err \<Rightarrow> (Some err, fs, stats, removed)
      | None \<Rightarrow>
          if w_isDir w then walkFn m ws (fs, stats, removed)
          else if \<not> lookup m (w_path w) then
            (case w_removeErr w of
               Some err \<Rightarrow>
                 (Some (Wrap (''failed to delete file '' @ w_path w) err), fs, stats, removed)
             | None \<Rightarrow>
                 walkFn m ws (fs(w_path w := None),
                              stats\<lparr>DeletedFiles := DeletedFiles stats + 1\<rparr>,
                              removed @ [w_path w]))
          else walkFn m ws (fs, stats, removed))"

definition deleteOrphanedFiles ::
  "filepath \<Rightarrow> Config \<Rightarrow> WalkEntry list \<Rightarrow> FileInfo list \<Rightarrow> filesystem \<times> Stats
     \<Rightarrow> error option \<times> filesystem \<times> Stats \<times> string list" where
  "deleteOrphanedFiles fp cfg walk dropboxFiles st =
     walkFn (dropboxFileMap fp cfg dropboxFiles) walk (fst st, snd st, [])"

subsection \<open>Run\<close>

text \<open>
  The world of one run: what the client answers (\<^verbatim>\<open>IsTokenValid\<close>, the \<open>k\<close>-th call
  of \<^verbatim>\<open>RefreshToken\<close>, the \<open>k\<close>-th call of \<^verbatim>\<open>ListAll\<close>, counted from 0), what the
  \<open>k\<close>-th download goroutine meets, how the goroutines are scheduled, what the walk
  over the backup directory visits, and the clock at the start and at the end.
\<close>

record Env =
  tokenValid :: bool
  refreshToken :: "nat \<Rightarrow> error option"
  listAll :: "nat \<Rightarrow> error + FileInfo list"
  fileIO :: "nat \<Rightarrow> FileIO"
  schedule :: "event list"
  walk :: "WalkEntry list"
  startNow :: Time
  endNow :: Time

text \<open>The calls of the client that \<^verbatim>\<open>Run\<close> makes itself, logged in their order.\<close>

datatype call = CallIsTokenValid | CallRefreshToken | CallListAll

definition IsTokenValid :: "Env \<Rightarrow> call list \<Rightarrow> bool \<times> call list" where
  "IsTokenValid env log = (tokenValid env, log @ [CallIsTokenValid])"

definition RefreshToken :: "Env \<Rightarrow> call list \<Rightarrow> error option \<times> call list" where
  "RefreshToken env log =
     (refreshToken env (count_list log CallRefreshToken), log @ [CallRefreshToken])"

definition ListAll :: "Env \<Rightarrow> call list \<Rightarrow> (error + FileInfo list) \<times> call list" where
  "ListAll env log = (listAll env (count_list log CallListAll), log @ [CallListAll])"

text \<open>
  What a run leaves: what \<^verbatim>\<open>Run\<close> returned (\<^term>\<open>None\<close> when the schedule ends
  before \<^verbatim>\<open>downloadFiles\<close> returns, \<^term>\<open>Some None\<close> for \<^verbatim>\<open>nil\<close>), the calls of the
  client, the filtered listing, the file system, the statistics, the paths created
  by the download phase and the paths removed by the deletion phase.
\<close>

record RunResult =
  result :: "error option option"
  calls :: "call list"
  filteredFiles :: "FileInfo list"
  finalDisk :: filesystem
  finalStats :: Stats
  createdPaths :: "string list"
  removedPaths :: "string list"

text \<open>The loop that counts the files and the folders of the listing.\<close>

definition countItems :: "FileInfo list \<Rightarrow> int \<times> int" where
  "countItems dropboxFiles =
     foldl (\<lambda>(fileCount, folderCount) file.
              if IsFolder file then (fileCount, folderCount + 1)
              else (fileCount + 1, folderCount))
       (0, 0) dropboxFiles"

text \<open>
  \<^verbatim>\<open>Run\<close> from the counting of the listing to its end. The log lines and the
  printed summary of \<^verbatim>\<open>logStats\<close> change nothing of the state and are left out.
\<close>

definition afterListing ::
  "filepath \<Rightarrow> Config \<Rightarrow> Env \<Rightarrow> filesystem \<Rightarrow> Stats \<Rightarrow> call list \<Rightarrow> FileInfo list \<Rightarrow> RunResult" where
  "afterListing fp cfg env fs0 stats log dropboxFiles =
     (let stats1 = stats\<lparr>TotalFiles := fst (countItems dropboxFiles),
                         TotalFolders := snd (countItems dropboxFiles)\<rparr>;
          filtered = filterFiles fp cfg dropboxFiles;
          d = downloadFiles fp cfg (fileIO env) (schedule env) filtered fs0 stats1;
          r = \<lparr>result = None, calls = log, filteredFiles = filtered, finalDisk = disk d,
               finalStats = counters d, createdPaths = created d, removedPaths = []\<rparr>
      in case returned d of
           None \<Rightarrow> r
         | Some (Some err) \<Rightarrow> r\<lparr>result := Some (Some (Wrap ''failed to download files'' err))\<rparr>
         | Some None \<Rightarrow>
             if Delete cfg then
               (case deleteOrphanedFiles fp cfg (walk env) filtered (disk d, counters d) of
                  (Some err, fs2, stats2, removed) \<Rightarrow>
                    r\<lparr>result := Some (Some (Wrap ''failed to delete orphaned files'' err)),
                      finalDisk := fs2, finalStats := stats2, removedPaths := removed\<rparr>
                | (None, fs2, stats2, removed) \<Rightarrow>
                    r\<lparr>result := Some None, finalDisk := fs2,
                      finalStats := stats2\<lparr>EndTime := endNow env\<rparr>, removedPaths := removed\<rparr>)
             else r\<lparr>result := Some None, finalStats := (counters d)\<lparr>EndTime := endNow env\<rparr>\<rparr>)"

definition newStats :: "Env \<Rightarrow> Stats" where
  "newStats env =
     \<lparr>TotalFiles = 0, TotalFolders = 0, DownloadedFiles = 0, SkippedFiles = 0,
      DeletedFiles = 0, TotalBytes = 0, StartTime = startNow env,
      EndTime = \<lparr>sec = 0, nsec = 0\<rparr>\<rparr>"

text \<open>A return of \<^verbatim>\<open>Run\<close> before anything is downloaded.\<close>

definition failed :: "Env \<Rightarrow> filesystem \<Rightarrow> call list \<Rightarrow> error \<Rightarrow> RunResult" where
  "failed env fs0 log err =
     \<lparr>result = Some (Some err), calls = log, filteredFiles = [], finalDisk = fs0,
      finalStats = newStats env, createdPaths = [], removedPaths = []\<rparr>"

text \<open>
  The listing of \<^verbatim>\<open>Run\<close>, from the log of the calls made so far: \<^verbatim>\<open>ListAll\<close>, and
  when it fails \<^verbatim>\<open>RefreshToken\<close> and \<^verbatim>\<open>ListAll\<close> once more.
\<close>

definition listing :: "filepath \<Rightarrow> Config \<Rightarrow> Env \<Rightarrow> filesystem \<Rightarrow> call list \<Rightarrow> RunResult" where
  "listing fp cfg env fs0 log0 =
     (case ListAll env log0 of
        (Inr dropboxFiles, log1) \<Rightarrow> afterListing fp cfg env fs0 (newStats env) log1 dropboxFiles
      | (Inl err, log1) \<Rightarrow>
          (case RefreshToken env log1 of
             (Some refreshErr, log2) \<Rightarrow>
               failed env fs0 log2 (Wrap ''failed to list Dropbox files and refresh token'' err)
           | (None, log2) \<Rightarrow>
               (case ListAll env log2 of
                  (Inl err2, log3) \<Rightarrow>
                    failed env fs0 log3
                      (Wrap ''failed to list Dropbox files after token refresh'' err2)
                | (Inr dropboxFiles, log3) \<Rightarrow>
                    afterListing fp cfg env fs0 (newStats env) log3 dropboxFiles)))"

definition Run :: "filepath \<Rightarrow> Config \<Rightarrow> Env \<Rightarrow> filesystem \<Rightarrow> RunResult" where
  "Run fp cfg env fs0 =
     (case IsTokenValid env [] of
        (True, log0) \<Rightarrow> listing fp cfg env fs0 log0
      | (False, log0) \<Rightarrow>
          (case RefreshToken env log0 of
             (Some err, log1) \<Rightarrow> failed env fs0 log1 (Wrap ''failed to refresh token'' err)
           | (None, log1) \<Rightarrow> listing fp cfg env fs0 log1))"

subsection \<open>Concrete inputs\<close>

text \<open>
  The configuration that \<^verbatim>\<open>config.Load\<close> builds (\<^verbatim>\<open>MaxConcurrency: 5\<close>) for the
  backup directory \<^verbatim>\<open>/backup\<close>, two remote files, a download that meets no error,
  the statistics at the start of a download phase over two files, and a backup
  directory that holds both files as they are on the remote side.
\<close>

definition cfg5 :: Config where
  "cfg5 = \<lparr>BackupDir = ''/backup'', Delete = False, Exclude = [], ShowCount = False,
           ShowSize = False, MaxConcurrency = 5\<rparr>"

definition fileA :: FileInfo where
  "fileA = \<lparr>Path = ''/a.txt'', Name = ''a.txt'', Size = 10, ModTime = \<lparr>sec = 1000, nsec = 0\<rparr>,
            IsFolder = False, ContentHash = [], Rev = []\<rparr>"

definition fileB :: FileInfo where
  "fileB = \<lparr>Path = ''/b.txt'', Name = ''b.txt'', Size = 10, ModTime = \<lparr>sec = 1000, nsec = 0\<rparr>,
            IsFolder = False, ContentHash = [], Rev = []\<rparr>"

definition smooth :: FileIO where
  "smooth = \<lparr>mkdirAllErr = None, downloadErr = None, createErr = None,
             writeTime = \<lparr>sec = 2000, nsec = 0\<rparr>, written = 10, copyErr = None,
             chtimesErr = None\<rparr>"

definition freshStats :: Stats where
  "freshStats = \<lparr>TotalFiles = 2, TotalFolders = 0, DownloadedFiles = 0, SkippedFiles = 0,
             DeletedFiles = 0, TotalBytes = 0, StartTime = \<lparr>sec = 3000, nsec = 0\<rparr>,
             EndTime = \<lparr>sec = 0, nsec = 0\<rparr>\<rparr>"

definition upToDate :: filesystem where
  "upToDate =
     [''/backup/a.txt'' \<mapsto> \<lparr>st_size = 10, st_modTime = \<lparr>sec = 1000, nsec = 0\<rparr>, st_isDir = False\<rparr>,
      ''/backup/b.txt'' \<mapsto> \<lparr>st_size = 10, st_modTime = \<lparr>sec = 1000, nsec = 0\<rparr>, st_isDir = False\<rparr>]"

text \<open>
  A remote entry without a modification time, and a local file of the same size whose
  modification time is the zero time as well.
\<close>

definition untimed :: FileInfo where
  "untimed = \<lparr>Path = ''/a.txt'', Name = ''a.txt'', Size = 10, ModTime = \<lparr>sec = 0, nsec = 0\<rparr>,
              IsFolder = False, ContentHash = [], Rev = []\<rparr>"

definition untimedLocal :: FileStat where
  "untimedLocal = \<lparr>st_size = 10, st_modTime = \<lparr>sec = 0, nsec = 0\<rparr>, st_isDir = False\<rparr>"

text \<open>
  A world whose token is valid and whose first listing fails: the answer to the
  refresh and the answer to the second listing are given; nothing is cancelled and
  the walk visits nothing.
\<close>

definition retryEnv :: "error option \<Rightarrow> error + FileInfo list \<Rightarrow> Env" where
  "retryEnv refresh second =
     \<lparr>tokenValid = True, refreshToken = (\<lambda>k. refresh),
      listAll = (\<lambda>k. if k = 0 then Inl (Err ''expired_access_token'') else second),
      fileIO = (\<lambda>k. smooth), schedule = [WaitClose, Receive], walk = [],
      startNow = \<lparr>sec = 3000, nsec = 0\<rparr>, endNow = \<lparr>sec = 3001, nsec = 0\<rparr>\<rparr>"

text \<open>
  A world for a run with deletion: the listing is the one file \<^verbatim>\<open>/a.txt\<close>, its
  goroutine runs to its end before the wait group is awaited, and the walk visits the
  backup directory, the file downloaded and a file that is not in the listing.
\<close>

definition orphanEnv :: Env where
  "orphanEnv =
     \<lparr>tokenValid = True, refreshToken = (\<lambda>k. None), listAll = (\<lambda>k. Inr [fileA]),
      fileIO = (\<lambda>k. smooth),
      schedule = [Go 0, Go 0, Go 0, Go 0, Go 0, Go 0, Go 0, Go 0, Go 0, Go 0, WaitClose, Receive],
      walk = [\<lparr>w_path = ''/backup'', w_isDir = True, w_err = None, w_removeErr = None\<rparr>,
              \<lparr>w_path = ''/backup/a.txt'', w_isDir = False, w_err = None, w_removeErr = None\<rparr>,
              \<lparr>w_path = ''/backup/orphan.txt'', w_isDir = False, w_err = None,
                w_removeErr = None\<rparr>],
      startNow = \<lparr>sec = 3000, nsec = 0\<rparr>, endNow = \<lparr>sec = 3001, nsec = 0\<rparr>\<rparr>"

definition orphanDisk :: filesystem where
  "orphanDisk =
     [''/backup/orphan.txt'' \<mapsto>
        \<lparr>st_size = 3, st_modTime = \<lparr>sec = 500, nsec = 0\<rparr>, st_isDir = False\<rparr>]"

section \<open>Properties\<close>

subsection \<open>The cases of the repository's tests\<close>

text \<open>
  \<^verbatim>\<open>TestShouldExclude\<close>, \<^verbatim>\<open>TestShouldSkipFile\<close>, \<^verbatim>\<open>TestShouldSkipFileNotExists\<close>
  and \<^verbatim>\<open>TestFormatBytes\<close> (the unit and the divisor of each case) on the functions
  above.
\<close>

lemma shouldExclude_tests:
  "shouldExclude unix (cfg5\<lparr>Exclude := []\<rparr>) ''/any/path.txt'' = False"
  "shouldExclude unix (cfg5\<lparr>Exclude := [''/exact/path.txt'']\<rparr>) ''/exact/path.txt'' = True"
  "shouldExclude unix (cfg5\<lparr>Exclude := [''*.tmp'']\<rparr>) ''/path/file.tmp'' = True"
  "shouldExclude unix (cfg5\<lparr>Exclude := [''temp/'']\<rparr>) ''/temp/file.txt'' = True"
  "shouldExclude unix (cfg5\<lparr>Exclude := [''*.log'', ''cache/'']\<rparr>) ''/data/file.txt'' = False"
  "shouldExclude unix (cfg5\<lparr>Exclude := [''*.log'', ''*.tmp'', ''cache/'']\<rparr>) ''/data/file.tmp'' = True"
  by (simp_all add: shouldExclude_def unix_def HasPrefix_def HasSuffix_def Base_def)

lemma shouldSkipFile_tests:
  "shouldSkipFile
     [''/tmp/test.txt'' \<mapsto> \<lparr>st_size = 12, st_modTime = \<lparr>sec = 5000, nsec = 0\<rparr>, st_isDir = False\<rparr>]
     ''/tmp/test.txt'' (fileA\<lparr>Size := 12, ModTime := \<lparr>sec = 5000 + 3600, nsec = 0\<rparr>\<rparr>) = False"
  "shouldSkipFile
     [''/tmp/test.txt'' \<mapsto> \<lparr>st_size = 12, st_modTime = \<lparr>sec = 5000, nsec = 0\<rparr>, st_isDir = False\<rparr>]
     ''/tmp/test.txt'' (fileA\<lparr>Size := 12, ModTime := \<lparr>sec = 5000 - 3600, nsec = 0\<rparr>\<rparr>) = True"
  "shouldSkipFile
     [''/tmp/test.txt'' \<mapsto> \<lparr>st_size = 12, st_modTime = \<lparr>sec = 5000, nsec = 0\<rparr>, st_isDir = False\<rparr>]
     ''/tmp/test.txt'' (fileA\<lparr>Size := 12, ModTime := \<lparr>sec = 5000, nsec = 0\<rparr>\<rparr>) = True"
  "shouldSkipFile Map.empty ''/tmp/nonexistent.txt'' (fileA\<lparr>Size := 1024\<rparr>) = False"
  by (simp_all add: shouldSkipFile_def os_Stat_def IsZero_def After_def Equal_def fileA_def)

lemma formatBytes_tests:
  "formatBytes 0 = Inr (PlainBytes 0)"
  "formatBytes 512 = Inr (PlainBytes 512)"
  "formatBytes 1024 = Inr (Scaled 1024 1024 CHR ''K'')"
  "formatBytes 1048576 = Inr (Scaled 1048576 1048576 CHR ''M'')"
  "formatBytes 1073741824 = Inr (Scaled 1073741824 1073741824 CHR ''G'')"
  "formatBytes 1099511627776 = Inr (Scaled 1099511627776 1099511627776 CHR ''T'')"
  "formatBytes 1536 = Inr (Scaled 1536 1024 CHR ''K'')"
  "formatBytes 2621440 = Inr (Scaled 2621440 1048576 CHR ''M'')"
  by (simp_all add: formatBytes_def formatBytes_loop.simps word_le_nat_alt)

subsection \<open>formatBytes\<close>

lemma formatBytes_loop_exp:
  "unat n < 1024 ^ Suc k \<Longrightarrow> snd (formatBytes_loop n dv exp) \<le> exp + k"
proof (induction k arbitrary: n dv exp)
  case 0
  then have "\<not> 1024 \<le> n" by (simp add: word_le_nat_alt)
  then show ?case by (subst formatBytes_loop.simps) simp
next
  case (Suc k)
  show ?case
  proof (cases "1024 \<le> n")
    case True
    have "unat n div 1024 < 1024 ^ Suc k"
      using Suc.prems by (simp add: less_mult_imp_div_less)
    then have "unat (n div 1024) < 1024 ^ Suc k"
      by (simp add: unat_div)
    from Suc.IH [OF this, of "dv * 1024" "exp + 1"]
    have "snd (formatBytes_loop (n div 1024) (dv * 1024) (exp + 1)) \<le> exp + Suc k"
      by simp
    then show ?thesis using True by (subst formatBytes_loop.simps) simp
  next
    case False
    then show ?thesis by (subst formatBytes_loop.simps) simp
  qed
qed

lemma unat_div_1024: "unat ((bytes :: uint64) div 1024) < 1024 ^ Suc 5"
proof -
  have "unat bytes < 2 ^ 64" using unsigned_less [of bytes] by simp
  then have "unat bytes div 1024 < 2 ^ 54" by simp
  then show ?thesis by (simp add: unat_div)
qed

lemma formatBytes_exp_le_5: "snd (formatBytes_loop (bytes div 1024) 1024 0) \<le> 5"
  using formatBytes_loop_exp [OF unat_div_1024, of bytes 1024 0] by simp

text \<open>
  Claim C10. \<^verbatim>\<open>formatBytes\<close> is total on \<^verbatim>\<open>uint64\<close>: for every input the exponent
  that the loop computes is at most 5, so the index into \<^verbatim>\<open>"KMGTPE"\<close> is in bounds
  and the function returns its formatted result and never panics; at the greatest
  \<^verbatim>\<open>uint64\<close> value the unit is \<^verbatim>\<open>E\<close> and the divisor is \<open>1024 ^ 6\<close>.
\<close>

theorem formatBytes_total:
  "snd (formatBytes_loop (bytes div 1024) 1024 0) \<le> 5
   \<and> (\<exists>r. formatBytes bytes = Inr r)
   \<and> formatBytes (- 1) = Inr (Scaled (- 1) (2 ^ 60) CHR ''E'')"
proof (intro conjI)
  show "snd (formatBytes_loop (bytes div 1024) 1024 0) \<le> 5"
    by (rule formatBytes_exp_le_5)
  show "\<exists>r. formatBytes bytes = Inr r"
    using formatBytes_exp_le_5 [of bytes] by (auto simp: formatBytes_def split: prod.splits)
  show "formatBytes (- 1) = Inr (Scaled (- 1) (2 ^ 60) CHR ''E'')"
    by (simp add: formatBytes_def formatBytes_loop.simps)
qed

subsection \<open>The skip decision\<close>

text \<open>
  Claim C4. For a remote entry whose modification time is the zero value,
  \<^verbatim>\<open>shouldSkipFile\<close> returns false whatever the local file system holds at the path:
  no file, or a file of any size and any modification time.
\<close>

theorem shouldSkipFile_zero_ModTime:
  "IsZero (ModTime remoteFile) \<Longrightarrow> shouldSkipFile fs path remoteFile = False"
  by (simp add: shouldSkipFile_def split: option.splits)

theorem shouldSkipFile_zero_ModTime_witness:
  "IsZero (ModTime untimed)
   \<and> shouldSkipFile [''/backup/a.txt'' \<mapsto> untimedLocal] ''/backup/a.txt'' untimed = False
   \<and> shouldSkipFile Map.empty ''/backup/a.txt'' untimed = False"
proof -
  have z: "IsZero (ModTime untimed)" by (simp add: IsZero_def untimed_def)
  from z shouldSkipFile_zero_ModTime [OF z, of "[''/backup/a.txt'' \<mapsto> untimedLocal]" "''/backup/a.txt''"]
    shouldSkipFile_zero_ModTime [OF z, of Map.empty "''/backup/a.txt''"]
  show ?thesis by simp
qed

text \<open>
  Claim C5, as stated: whenever a local file exists at the path with the size and the
  modification time of the remote entry, \<^verbatim>\<open>shouldSkipFile\<close> returns true. It fails
  for a remote entry without a modification time: the local file below has the same
  size and the same (zero) time, and the file is not skipped.
\<close>

theorem shouldSkipFile_same_size_and_time_counterexample:
  "os_Stat [''/backup/a.txt'' \<mapsto> untimedLocal] ''/backup/a.txt'' = Some untimedLocal
   \<and> sint (st_size untimedLocal) = uint (Size untimed)
   \<and> Equal (st_modTime untimedLocal) (ModTime untimed)
   \<and> shouldSkipFile [''/backup/a.txt'' \<mapsto> untimedLocal] ''/backup/a.txt'' untimed = False"
  by (simp add: os_Stat_def shouldSkipFile_def IsZero_def Equal_def untimed_def untimedLocal_def)

text \<open>
  Claim C5, amended: for a remote entry whose modification time is known (not the
  zero value), whenever a local file exists at the path with the size and exactly the
  modification time of the remote entry, \<^verbatim>\<open>shouldSkipFile\<close> returns true.
\<close>

theorem shouldSkipFile_same_size_and_time:
  assumes "\<not> IsZero (ModTime remoteFile)"
      and "os_Stat fs path = Some stat"
      and "sint (st_size stat) = uint (Size remoteFile)"
      and "Equal (st_modTime stat) (ModTime remoteFile)"
  shows "shouldSkipFile fs path remoteFile = True"
proof -
  have "(word_of_int (sint (st_size stat)) :: 64 word) = word_of_int (uint (Size remoteFile))"
    using assms(3) by simp
  then have "st_size stat = Size remoteFile"
    by simp
  with assms show ?thesis by (simp add: shouldSkipFile_def)
qed

theorem shouldSkipFile_same_size_and_time_witness:
  "\<not> IsZero (ModTime fileA)
   \<and> os_Stat upToDate ''/backup/a.txt''
       = Some \<lparr>st_size = 10, st_modTime = \<lparr>sec = 1000, nsec = 0\<rparr>, st_isDir = False\<rparr>
   \<and> shouldSkipFile upToDate ''/backup/a.txt'' fileA = True"
proof -
  let ?stat = "\<lparr>st_size = 10, st_modTime = \<lparr>sec = 1000, nsec = 0\<rparr>, st_isDir = False\<rparr>"
  have a: "\<not> IsZero (ModTime fileA)" by (simp add: IsZero_def fileA_def)
  have b: "os_Stat upToDate ''/backup/a.txt'' = Some ?stat"
    by (simp add: os_Stat_def upToDate_def)
  have c: "sint (st_size ?stat) = uint (Size fileA)" by (simp add: fileA_def)
  have d: "Equal (st_modTime ?stat) (ModTime fileA)" by (simp add: Equal_def fileA_def)
  from shouldSkipFile_same_size_and_time [OF a b c d] a b show ?thesis
    by simp
qed

text \<open>
  Claim C6. For a remote entry with a known (non-zero) modification time and a local
  file whose modification time is strictly after it, \<^verbatim>\<open>shouldSkipFile\<close> returns
  true; and when no local file exists at the path, \<^verbatim>\<open>shouldSkipFile\<close> returns false,
  for every remote entry.
\<close>

theorem shouldSkipFile_local_newer_or_absent:
  "(\<not> IsZero (ModTime remoteFile) \<and> os_Stat fs path = Some stat
      \<and> After (st_modTime stat) (ModTime remoteFile)
     \<longrightarrow> shouldSkipFile fs path remoteFile = True)
   \<and> (os_Stat fs' path' = None \<longrightarrow> shouldSkipFile fs' path' remoteFile' = False)"
  by (simp add: shouldSkipFile_def)

theorem shouldSkipFile_local_newer_or_absent_witness:
  "shouldSkipFile
     [''/backup/a.txt'' \<mapsto> \<lparr>st_size = 7, st_modTime = \<lparr>sec = 1000, nsec = 1\<rparr>, st_isDir = False\<rparr>]
     ''/backup/a.txt'' fileA = True
   \<and> shouldSkipFile Map.empty ''/backup/a.txt'' fileA = False"
proof -
  let ?stat = "\<lparr>st_size = 7, st_modTime = \<lparr>sec = 1000, nsec = 1\<rparr>, st_isDir = False\<rparr>"
  let ?fs = "[''/backup/a.txt'' \<mapsto> ?stat]"
  have a: "\<not> IsZero (ModTime fileA) \<and> os_Stat ?fs ''/backup/a.txt'' = Some ?stat
      \<and> After (st_modTime ?stat) (ModTime fileA)"
    by (simp add: IsZero_def os_Stat_def After_def fileA_def)
  have b: "os_Stat Map.empty ''/backup/a.txt'' = None"
    by (simp add: os_Stat_def)
  from shouldSkipFile_local_newer_or_absent
         [of fileA ?fs "''/backup/a.txt''" ?stat Map.empty "''/backup/a.txt''" fileA] a b
  show ?thesis by blast
qed

subsection \<open>The exclusion filter\<close>

lemma shouldExclude_loop_Cons:
  "shouldExclude_loop fp path (rule # rules) =
     (shouldExclude_loop fp path [rule] \<or> shouldExclude_loop fp path rules)"
  by simp

lemma shouldExclude_loop_any:
  "shouldExclude_loop fp path rules = (\<exists>rule \<in> set rules. shouldExclude_loop fp path [rule])"
proof (induction rules)
  case Nil
  show ?case by simp
next
  case (Cons rule rules)
  have "shouldExclude_loop fp path (rule # rules) =
     (shouldExclude_loop fp path [rule] \<or> shouldExclude_loop fp path rules)"
    by (rule shouldExclude_loop_Cons)
  with Cons.IH show ?case by auto
qed

lemma filterFiles_loop_filter:
  "filterFiles_loop fp cfg files filtered =
     filtered @ filter (\<lambda>file. \<not> shouldExclude fp cfg (Path file)) files"
  by (induction files arbitrary: filtered) simp_all

text \<open>
  Claim C7. For every rule set and every path, \<^verbatim>\<open>shouldExclude\<close> is false when the
  rule set is empty, and it is the disjunction, over the rules of the set, of what
  \<^verbatim>\<open>shouldExclude\<close> answers for that rule alone; and with no rule configured the
  fast path of \<^verbatim>\<open>filterFiles\<close> returns the listing as it is, which is also what the
  filtering loop returns on it.
\<close>

theorem shouldExclude_any_rule:
  "(Exclude cfg = [] \<longrightarrow> shouldExclude fp cfg path = False)
   \<and> shouldExclude fp cfg path
       = (\<exists>rule \<in> set (Exclude cfg). shouldExclude fp (cfg\<lparr>Exclude := [rule]\<rparr>) path)
   \<and> (Exclude cfg = [] \<longrightarrow>
        filterFiles fp cfg files = files \<and> filterFiles_loop fp cfg files [] = files)"
proof (intro conjI impI)
  assume "Exclude cfg = []"
  then show "shouldExclude fp cfg path = False" by (simp add: shouldExclude_def)
next
  show "shouldExclude fp cfg path
       = (\<exists>rule \<in> set (Exclude cfg). shouldExclude fp (cfg\<lparr>Exclude := [rule]\<rparr>) path)"
    using shouldExclude_loop_any [of fp path "Exclude cfg"] by (simp add: shouldExclude_def)
next
  assume "Exclude cfg = []"
  then show "filterFiles fp cfg files = files" by (simp add: filterFiles_def)
next
  assume "Exclude cfg = []"
  then show "filterFiles_loop fp cfg files [] = files"
    by (simp add: filterFiles_loop_filter shouldExclude_def)
qed

theorem shouldExclude_any_rule_witness:
  "shouldExclude unix cfg5 ''/any/path.txt'' = False
   \<and> filterFiles unix cfg5 [fileA, fileB] = [fileA, fileB]
   \<and> filterFiles_loop unix cfg5 [fileA, fileB] [] = [fileA, fileB]
   \<and> shouldExclude unix (cfg5\<lparr>Exclude := [''*.log'', ''*.tmp'', ''cache/'']\<rparr>) ''/data/file.tmp''
   \<and> \<not> shouldExclude unix (cfg5\<lparr>Exclude := [''*.log'', ''cache/'']\<rparr>) ''/data/file.txt''"
proof -
  let ?cfg3 = "cfg5\<lparr>Exclude := [''*.log'', ''*.tmp'', ''cache/'']\<rparr>"
  let ?cfg2 = "cfg5\<lparr>Exclude := [''*.log'', ''cache/'']\<rparr>"
  have e: "Exclude cfg5 = []" by (simp add: cfg5_def)
  from shouldExclude_any_rule [of cfg5 unix "''/any/path.txt''" "[fileA, fileB]"] e
  have a: "shouldExclude unix cfg5 ''/any/path.txt'' = False"
    and b: "filterFiles unix cfg5 [fileA, fileB] = [fileA, fileB]"
    and c: "filterFiles_loop unix cfg5 [fileA, fileB] [] = [fileA, fileB]"
    by blast+
  have one: "shouldExclude unix (?cfg3\<lparr>Exclude := [''*.tmp'']\<rparr>) ''/data/file.tmp''"
    by (simp add: shouldExclude_def unix_def HasPrefix_def HasSuffix_def Base_def)
  have mem: "''*.tmp'' \<in> set (Exclude ?cfg3)" by simp
  from shouldExclude_any_rule [of ?cfg3 unix "''/data/file.tmp''" "[]"] one mem
  have d: "shouldExclude unix ?cfg3 ''/data/file.tmp''" by blast
  have none: "\<not> (\<exists>rule \<in> set (Exclude ?cfg2).
                  shouldExclude unix (?cfg2\<lparr>Exclude := [rule]\<rparr>) ''/data/file.txt'')"
    by (simp add: shouldExclude_def unix_def HasPrefix_def HasSuffix_def Base_def)
  from shouldExclude_any_rule [of ?cfg2 unix "''/data/file.txt''" "[]"] none
  have f: "\<not> shouldExclude unix ?cfg2 ''/data/file.txt''" by blast
  from a b c d f show ?thesis by blast
qed

text \<open>
  Claim C3. A rule that begins with \<^verbatim>\<open>@\<close> names a file of further rules, and a path
  that matches one of them is to be excluded. The code reads no file:
  \<^verbatim>\<open>isInExcludeFile\<close> is false for every path, so with the rule
  \<^verbatim>\<open>@.backupignore\<close> the path \<^verbatim>\<open>/cache/file.tmp\<close> is kept whatever the file holds,
  although the rule \<^verbatim>\<open>*.tmp\<close>, a line of that file, excludes the path when it is
  given directly.
\<close>

theorem shouldExclude_exclude_file_never_matches:
  "shouldExclude unix (cfg5\<lparr>Exclude := [''@.backupignore'']\<rparr>) ''/cache/file.tmp'' = False
   \<and> shouldExclude unix (cfg5\<lparr>Exclude := [''*.tmp'']\<rparr>) ''/cache/file.tmp'' = True"
  by (simp add: shouldExclude_def unix_def HasPrefix_def HasSuffix_def Base_def
        isInExcludeFile_def)

subsection \<open>The paths created and the paths removed\<close>

lemma downloadFile_step_created:
  "downloadFile_step fp cfg file io pc s = (pc', s') \<Longrightarrow>
     set (created s') \<subseteq> insert (localPath fp cfg file) (set (created s))"
  by (cases pc) (auto simp: Let_def split: option.splits if_splits)

lemma worker_step_created:
  "set (created (worker_step fp cfg cap file io k s))
     \<subseteq> insert (localPath fp cfg file) (set (created s))"
proof -
  obtain pc' s' where d: "downloadFile_step fp cfg file io (pcs s ! k) s = (pc', s')"
    by fastforce
  from downloadFile_step_created [OF d]
  have "set (created s') \<subseteq> insert (localPath fp cfg file) (set (created s))" .
  with d show ?thesis
    by (cases "pcs s ! k")
       (auto simp del: downloadFile_step.simps simp: worker_step_def split: option.splits)
qed

lemma step_created:
  assumes "set (created s) \<subseteq> localPath fp cfg ` set workers"
  shows "set (created (step fp cfg cap workers io ev s)) \<subseteq> localPath fp cfg ` set workers"
proof (cases ev)
  case (Go k)
  show ?thesis
  proof (cases "k < length workers")
    case True
    then have "localPath fp cfg (workers ! k) \<in> localPath fp cfg ` set workers" by simp
    with assms worker_step_created [of fp cfg cap "workers ! k" "io k" k s] Go True
    show ?thesis by auto
  next
    case False
    with assms Go show ?thesis by simp
  qed
qed (use assms in \<open>auto split: list.splits option.splits\<close>)

lemma run_sched_created:
  "set (created s) \<subseteq> localPath fp cfg ` set workers \<Longrightarrow>
   set (created (run_sched fp cfg cap workers io sched s)) \<subseteq> localPath fp cfg ` set workers"
proof (induction sched arbitrary: s)
  case Nil
  then show ?case by simp
next
  case (Cons ev evs)
  show ?case
  proof (cases "returned s \<noteq> None")
    case True
    with Cons.prems show ?thesis by simp
  next
    case False
    from Cons.prems
    have "set (created (step fp cfg cap workers io ev s)) \<subseteq> localPath fp cfg ` set workers"
      by (rule step_created)
    from Cons.IH [OF this] False show ?thesis by simp
  qed
qed

lemma downloadFiles_created:
  "set (created (downloadFiles fp cfg io sched files fs0 stats0)) \<subseteq> localPath fp cfg ` set files"
proof -
  let ?workers = "filter (\<lambda>file. \<not> IsFolder file) files"
  let ?s0 = "\<lparr>disk = fs0, counters = stats0, pcs = replicate (length ?workers) Queued,
            semaphore = 0, errChan = [], closed = False, ctxErr = None, created = [],
            returned = None\<rparr>"
  have "set (created ?s0) \<subseteq> localPath fp cfg ` set ?workers" by simp
  then have "set (created (run_sched fp cfg (length files) ?workers io sched ?s0))
               \<subseteq> localPath fp cfg ` set ?workers"
    by (rule run_sched_created)
  then show ?thesis by (auto simp: downloadFiles_def Let_def)
qed

text \<open>
  The download phase changes the local file system at the local paths of its entries
  only: \<^verbatim>\<open>io.Copy\<close> and \<^verbatim>\<open>os.Chtimes\<close> act on the path \<^verbatim>\<open>os.Create\<close> has created.
\<close>

lemma downloadFile_step_disk:
  "downloadFile_step fp cfg file io pc s = (pc', s') \<Longrightarrow> path \<noteq> localPath fp cfg file \<Longrightarrow>
     disk s' path = disk s path"
  by (cases pc) (auto simp: Let_def split: option.splits if_splits)

lemma worker_step_disk:
  assumes "path \<noteq> localPath fp cfg file"
  shows "disk (worker_step fp cfg cap file io k s) path = disk s path"
proof -
  obtain pc' s' where d: "downloadFile_step fp cfg file io (pcs s ! k) s = (pc', s')"
    by fastforce
  from downloadFile_step_disk [OF d assms] have "disk s' path = disk s path" .
  with d show ?thesis
    by (cases "pcs s ! k")
       (auto simp del: downloadFile_step.simps simp: worker_step_def split: option.splits)
qed

lemma step_disk:
  assumes "path \<notin> localPath fp cfg ` set workers"
  shows "disk (step fp cfg cap workers io ev s) path = disk s path"
proof (cases ev)
  case (Go k)
  show ?thesis
  proof (cases "k < length workers")
    case True
    with assms have "path \<noteq> localPath fp cfg (workers ! k)" by auto
    from worker_step_disk [OF this] Go True show ?thesis by simp
  next
    case False
    with Go show ?thesis by simp
  qed
qed (auto split: list.splits option.splits)

lemma run_sched_disk:
  "path \<notin> localPath fp cfg ` set workers \<Longrightarrow>
   disk (run_sched fp cfg cap workers io sched s) path = disk s path"
  by (induction sched arbitrary: s) (simp_all add: step_disk)

lemma downloadFiles_disk:
  assumes "path \<notin> localPath fp cfg ` set files"
  shows "disk (downloadFiles fp cfg io sched files fs0 stats0) path = fs0 path"
proof -
  from assms have "path \<notin> localPath fp cfg ` set (filter (\<lambda>file. \<not> IsFolder file) files)"
    by auto
  from run_sched_disk [OF this] show ?thesis
    by (simp add: downloadFiles_def Let_def)
qed

lemma foldl_fileMap:
  "foldl (\<lambda>m file. m(localPath fp cfg file \<mapsto> True)) m files path =
     (if path \<in> localPath fp cfg ` set files then Some True else m path)"
  by (induction files arbitrary: m) auto

lemma lookup_dropboxFileMap:
  "lookup (dropboxFileMap fp cfg files) path = (path \<in> localPath fp cfg ` set files)"
  by (simp add: lookup_def dropboxFileMap_def foldl_fileMap)

lemma walkFn_removed:
  "walkFn m ws (fs, stats, removed) = (err, fs', stats', removed') \<Longrightarrow>
     set removed' \<subseteq> set removed \<union> {path. \<not> lookup m path}"
proof (induction ws arbitrary: fs stats removed)
  case Nil
  then show ?case by auto
next
  case (Cons w ws)
  then show ?case
    by (fastforce split: option.splits if_splits)
qed

lemma deleteOrphanedFiles_removed:
  "deleteOrphanedFiles fp cfg ws files st = (err, fs', stats', removed') \<Longrightarrow>
     set removed' \<inter> localPath fp cfg ` set files = {}"
  using walkFn_removed [of "dropboxFileMap fp cfg files" ws "fst st" "snd st" "[]" err fs' stats' removed']
  by (auto simp: deleteOrphanedFiles_def lookup_dropboxFileMap)

lemma afterListing_paths:
  "set (createdPaths (afterListing fp cfg env fs0 stats log files))
       \<subseteq> localPath fp cfg ` set (filteredFiles (afterListing fp cfg env fs0 stats log files))
   \<and> set (removedPaths (afterListing fp cfg env fs0 stats log files))
       \<inter> localPath fp cfg ` set (filteredFiles (afterListing fp cfg env fs0 stats log files)) = {}"
  using downloadFiles_created [of fp cfg "fileIO env" "schedule env" "filterFiles fp cfg files" fs0]
    deleteOrphanedFiles_removed [of fp cfg "walk env" "filterFiles fp cfg files"]
  by (auto simp: afterListing_def Let_def split: option.splits prod.splits)

lemma failed_paths:
  "createdPaths (failed env fs0 log err) = [] \<and> removedPaths (failed env fs0 log err) = []"
  by (simp add: failed_def)

lemma listing_paths:
  "set (createdPaths (listing fp cfg env fs0 log))
       \<subseteq> localPath fp cfg ` set (filteredFiles (listing fp cfg env fs0 log))
   \<and> set (removedPaths (listing fp cfg env fs0 log))
       \<inter> localPath fp cfg ` set (filteredFiles (listing fp cfg env fs0 log)) = {}"
  using afterListing_paths [of fp cfg env fs0 "newStats env"] failed_paths [of env fs0]
  by (simp add: listing_def ListAll_def RefreshToken_def split: sum.splits option.splits)

lemmas download_eval =
  downloadFiles_def worker_step_def localPath_def unix_def TrimPrefix_def HasPrefix_def
  shouldSkipFile_def os_Stat_def IsZero_def After_def Equal_def Let_def
  cfg5_def fileA_def fileB_def smooth_def freshStats_def upToDate_def

text \<open>
  Claim C9. In every run, under every schedule of the download goroutines and
  whatever the world answers: every local path that the download phase creates is the
  local path of an entry of the filtered listing, every path that the deletion phase
  removes is the local path of no entry of that listing, and so no path is both
  created and removed in the run. Paths are compared as strings, as the map of
  \<^verbatim>\<open>deleteOrphanedFiles\<close> compares them.
\<close>

theorem Run_created_never_removed:
  "set (createdPaths (Run fp cfg env fs0))
       \<subseteq> localPath fp cfg ` set (filteredFiles (Run fp cfg env fs0))
   \<and> set (removedPaths (Run fp cfg env fs0))
       \<inter> localPath fp cfg ` set (filteredFiles (Run fp cfg env fs0)) = {}
   \<and> set (createdPaths (Run fp cfg env fs0)) \<inter> set (removedPaths (Run fp cfg env fs0)) = {}"
proof -
  have "set (createdPaths (Run fp cfg env fs0))
       \<subseteq> localPath fp cfg ` set (filteredFiles (Run fp cfg env fs0))
   \<and> set (removedPaths (Run fp cfg env fs0))
       \<inter> localPath fp cfg ` set (filteredFiles (Run fp cfg env fs0)) = {}"
    using listing_paths [of fp cfg env fs0] failed_paths [of env fs0]
    by (simp add: Run_def IsTokenValid_def RefreshToken_def split: option.splits bool.splits)
  then show ?thesis by blast
qed

theorem Run_created_never_removed_witness:
  "result (Run unix (cfg5\<lparr>Delete := True\<rparr>) orphanEnv orphanDisk) = Some None
   \<and> createdPaths (Run unix (cfg5\<lparr>Delete := True\<rparr>) orphanEnv orphanDisk) = [''/backup/a.txt'']
   \<and> removedPaths (Run unix (cfg5\<lparr>Delete := True\<rparr>) orphanEnv orphanDisk)
       = [''/backup/orphan.txt'']
   \<and> set (createdPaths (Run unix (cfg5\<lparr>Delete := True\<rparr>) orphanEnv orphanDisk))
       \<inter> set (removedPaths (Run unix (cfg5\<lparr>Delete := True\<rparr>) orphanEnv orphanDisk)) = {}"
proof -
  have "result (Run unix (cfg5\<lparr>Delete := True\<rparr>) orphanEnv orphanDisk) = Some None
   \<and> createdPaths (Run unix (cfg5\<lparr>Delete := True\<rparr>) orphanEnv orphanDisk) = [''/backup/a.txt'']
   \<and> removedPaths (Run unix (cfg5\<lparr>Delete := True\<rparr>) orphanEnv orphanDisk)
       = [''/backup/orphan.txt'']"
    by (simp add: Run_def IsTokenValid_def listing_def ListAll_def afterListing_def
          orphanEnv_def orphanDisk_def filterFiles_def countItems_def newStats_def
          deleteOrphanedFiles_def dropboxFileMap_def lookup_def download_eval)
  with Run_created_never_removed [of unix "cfg5\<lparr>Delete := True\<rparr>" orphanEnv orphanDisk]
  show ?thesis by blast
qed

subsection \<open>The listing and its one retry\<close>

lemma afterListing_log:
  "afterListing fp cfg env fs0 stats log files
     = (afterListing fp cfg env fs0 stats log' files)\<lparr>calls := log\<rparr>"
  by (simp add: afterListing_def Let_def split: option.splits prod.splits)

lemma afterListing_env:
  "afterListing fp cfg (env\<lparr>listAll := l\<rparr>) fs0 stats log files
     = afterListing fp cfg env fs0 stats log files"
  by (simp add: afterListing_def Let_def split: option.splits prod.splits)

lemma listing_fail:
  assumes "count_list log0 CallListAll = 0" and "count_list log0 CallRefreshToken = n"
      and "listAll env 0 = Inl err"
  shows "listing fp cfg env fs0 log0 =
     (case refreshToken env n of
        Some refreshErr \<Rightarrow>
          failed env fs0 (log0 @ [CallListAll, CallRefreshToken])
            (Wrap ''failed to list Dropbox files and refresh token'' err)
      | None \<Rightarrow>
          (case listAll env 1 of
             Inl err2 \<Rightarrow>
               failed env fs0 (log0 @ [CallListAll, CallRefreshToken, CallListAll])
                 (Wrap ''failed to list Dropbox files after token refresh'' err2)
           | Inr dropboxFiles \<Rightarrow>
               afterListing fp cfg env fs0 (newStats env)
                 (log0 @ [CallListAll, CallRefreshToken, CallListAll]) dropboxFiles))"
  using assms
  by (simp add: listing_def ListAll_def RefreshToken_def split: option.splits sum.splits)

lemma listing_ok:
  assumes "listAll env (count_list log0 CallListAll) = Inr dropboxFiles"
  shows "listing fp cfg env fs0 log0 =
     afterListing fp cfg env fs0 (newStats env) (log0 @ [CallListAll]) dropboxFiles"
  using assms by (simp add: listing_def ListAll_def)

lemma Run_listing:
  assumes "tokenValid env \<or> refreshToken env 0 = None"
  shows "Run fp cfg env fs0 = listing fp cfg env fs0
     (if tokenValid env then [CallIsTokenValid] else [CallIsTokenValid, CallRefreshToken])"
  using assms by (auto simp: Run_def IsTokenValid_def RefreshToken_def split: bool.splits)

lemma Run_first_listing_empty:
  "Run unix cfg5 ((retryEnv None (Inr []))\<lparr>listAll := \<lambda>k. Inr []\<rparr>) Map.empty =
     \<lparr>result = Some None, calls = [CallIsTokenValid, CallListAll], filteredFiles = [],
      finalDisk = Map.empty,
      finalStats = (newStats (retryEnv None (Inr [])))\<lparr>EndTime := \<lparr>sec = 3001, nsec = 0\<rparr>\<rparr>,
      createdPaths = [], removedPaths = []\<rparr>"
  by (simp add: Run_def IsTokenValid_def listing_def ListAll_def afterListing_def retryEnv_def
        cfg5_def filterFiles_def downloadFiles_def countItems_def newStats_def)

text \<open>
  Claim C8. In every run that reaches the listing (the token is valid, or the refresh
  before the listing succeeds) and whose first \<^verbatim>\<open>ListAll\<close> fails, \<^verbatim>\<open>Run\<close> calls
  \<^verbatim>\<open>RefreshToken\<close> once and then \<^verbatim>\<open>ListAll\<close> at most once more. If that refresh
  fails, \<^verbatim>\<open>Run\<close> returns an error after the calls \<^verbatim>\<open>ListAll, RefreshToken\<close> and
  downloads nothing; if the second listing fails, \<^verbatim>\<open>Run\<close> returns an error after
  the calls \<^verbatim>\<open>ListAll, RefreshToken, ListAll\<close> and downloads nothing; if the second
  listing succeeds, the run is the run whose first listing gave that result, but for
  the log of the calls, which is \<^verbatim>\<open>ListAll, RefreshToken, ListAll\<close> after the check
  of the token.
\<close>

theorem Run_listing_retry:
  assumes reach: "tokenValid env \<or> refreshToken env 0 = None"
      and first: "listAll env 0 = Inl err"
  shows
    "(refreshToken env (if tokenValid env then 0 else 1) = Some refreshErr \<longrightarrow>
        Run fp cfg env fs =
          failed env fs
            ((if tokenValid env then [CallIsTokenValid] else [CallIsTokenValid, CallRefreshToken])
               @ [CallListAll, CallRefreshToken])
            (Wrap ''failed to list Dropbox files and refresh token'' err))
     \<and> (refreshToken env (if tokenValid env then 0 else 1) = None \<and> listAll env 1 = Inl retryErr \<longrightarrow>
        Run fp cfg env fs =
          failed env fs
            ((if tokenValid env then [CallIsTokenValid] else [CallIsTokenValid, CallRefreshToken])
               @ [CallListAll, CallRefreshToken, CallListAll])
            (Wrap ''failed to list Dropbox files after token refresh'' retryErr))
     \<and> (refreshToken env (if tokenValid env then 0 else 1) = None
          \<and> listAll env 1 = Inr dropboxFiles \<longrightarrow>
        Run fp cfg env fs =
          (Run fp cfg (env\<lparr>listAll := \<lambda>k. Inr dropboxFiles\<rparr>) fs)
            \<lparr>calls := (if tokenValid env then [CallIsTokenValid]
                       else [CallIsTokenValid, CallRefreshToken])
                      @ [CallListAll, CallRefreshToken, CallListAll]\<rparr>)"
proof -
  let ?log0 = "if tokenValid env then [CallIsTokenValid] else [CallIsTokenValid, CallRefreshToken]"
  let ?n = "if tokenValid env then 0 else 1 :: nat"
  let ?env' = "env\<lparr>listAll := \<lambda>k. Inr dropboxFiles\<rparr>"
  have r: "Run fp cfg env fs = listing fp cfg env fs ?log0"
    using reach by (rule Run_listing)
  have cl: "count_list ?log0 CallListAll = 0" by simp
  have cr: "count_list ?log0 CallRefreshToken = ?n" by simp
  note l = listing_fail [OF cl cr first, of fp cfg fs]
  have reach': "tokenValid ?env' \<or> refreshToken ?env' 0 = None" using reach by simp
  have "Run fp cfg ?env' fs = listing fp cfg ?env' fs ?log0"
    using Run_listing [OF reach', of fp cfg fs] by simp
  also have "\<dots> = afterListing fp cfg ?env' fs (newStats ?env') (?log0 @ [CallListAll]) dropboxFiles"
    by (rule listing_ok) simp
  also have "\<dots> = afterListing fp cfg env fs (newStats env) (?log0 @ [CallListAll]) dropboxFiles"
    by (simp add: afterListing_env newStats_def)
  finally have ok: "Run fp cfg ?env' fs
      = afterListing fp cfg env fs (newStats env) (?log0 @ [CallListAll]) dropboxFiles" .
  have third: "afterListing fp cfg env fs (newStats env)
                 (?log0 @ [CallListAll, CallRefreshToken, CallListAll]) dropboxFiles
        = (Run fp cfg ?env' fs)\<lparr>calls := ?log0 @ [CallListAll, CallRefreshToken, CallListAll]\<rparr>"
    unfolding ok by (rule afterListing_log)
  have c1: "refreshToken env ?n = Some refreshErr \<Longrightarrow>
        Run fp cfg env fs = failed env fs (?log0 @ [CallListAll, CallRefreshToken])
            (Wrap ''failed to list Dropbox files and refresh token'' err)"
    unfolding r l by simp
  have c2: "refreshToken env ?n = None \<Longrightarrow> listAll env 1 = Inl retryErr \<Longrightarrow>
        Run fp cfg env fs = failed env fs (?log0 @ [CallListAll, CallRefreshToken, CallListAll])
            (Wrap ''failed to list Dropbox files after token refresh'' retryErr)"
    unfolding r l by simp
  have c3: "refreshToken env ?n = None \<Longrightarrow> listAll env 1 = Inr dropboxFiles \<Longrightarrow>
        Run fp cfg env fs =
          (Run fp cfg ?env' fs)\<lparr>calls := ?log0 @ [CallListAll, CallRefreshToken, CallListAll]\<rparr>"
    unfolding r l third [symmetric] by simp
  from c1 c2 c3 show ?thesis by blast
qed

theorem Run_listing_retry_witness:
  "Run unix cfg5 (retryEnv (Some (Err ''no token source'')) (Inr [])) Map.empty =
     failed (retryEnv (Some (Err ''no token source'')) (Inr [])) Map.empty
       [CallIsTokenValid, CallListAll, CallRefreshToken]
       (Wrap ''failed to list Dropbox files and refresh token'' (Err ''expired_access_token''))
   \<and> Run unix cfg5 (retryEnv None (Inl (Err ''timeout''))) Map.empty =
     failed (retryEnv None (Inl (Err ''timeout''))) Map.empty
       [CallIsTokenValid, CallListAll, CallRefreshToken, CallListAll]
       (Wrap ''failed to list Dropbox files after token refresh'' (Err ''timeout''))
   \<and> result (Run unix cfg5 (retryEnv None (Inr [])) Map.empty) = Some None
   \<and> calls (Run unix cfg5 (retryEnv None (Inr [])) Map.empty)
       = [CallIsTokenValid, CallListAll, CallRefreshToken, CallListAll]"
proof -
  let ?e1 = "retryEnv (Some (Err ''no token source'')) (Inr [])"
  let ?e2 = "retryEnv None (Inl (Err ''timeout''))"
  let ?e3 = "retryEnv None (Inr [])"
  have reach: "tokenValid ?e1 \<or> refreshToken ?e1 0 = None"
      "tokenValid ?e2 \<or> refreshToken ?e2 0 = None" "tokenValid ?e3 \<or> refreshToken ?e3 0 = None"
    by (simp_all add: retryEnv_def)
  have first: "listAll ?e1 0 = Inl (Err ''expired_access_token'')"
      "listAll ?e2 0 = Inl (Err ''expired_access_token'')"
      "listAll ?e3 0 = Inl (Err ''expired_access_token'')"
    by (simp_all add: retryEnv_def)
  have h1: "refreshToken ?e1 (if tokenValid ?e1 then 0 else 1) = Some (Err ''no token source'')"
    by (simp add: retryEnv_def)
  have h2: "refreshToken ?e2 (if tokenValid ?e2 then 0 else 1) = None
            \<and> listAll ?e2 1 = Inl (Err ''timeout'')"
    by (simp add: retryEnv_def)
  have h3: "refreshToken ?e3 (if tokenValid ?e3 then 0 else 1) = None \<and> listAll ?e3 1 = Inr []"
    by (simp add: retryEnv_def)
  have t: "tokenValid ?e1" "tokenValid ?e2" "tokenValid ?e3"
    by (simp_all add: retryEnv_def)
  from Run_listing_retry [OF reach(1) first(1), where fp = unix and cfg = cfg5 and fs = Map.empty
         and refreshErr = "Err ''no token source''"] h1 t
  have a: "Run unix cfg5 ?e1 Map.empty =
     failed ?e1 Map.empty [CallIsTokenValid, CallListAll, CallRefreshToken]
       (Wrap ''failed to list Dropbox files and refresh token'' (Err ''expired_access_token''))"
    by simp
  from Run_listing_retry [OF reach(2) first(2), where fp = unix and cfg = cfg5 and fs = Map.empty
         and retryErr = "Err ''timeout''"] h2 t
  have b: "Run unix cfg5 ?e2 Map.empty =
     failed ?e2 Map.empty [CallIsTokenValid, CallListAll, CallRefreshToken, CallListAll]
       (Wrap ''failed to list Dropbox files after token refresh'' (Err ''timeout''))"
    by simp
  from Run_listing_retry [OF reach(3) first(3), where fp = unix and cfg = cfg5 and fs = Map.empty
         and dropboxFiles = "[]"] h3 t
  have c: "Run unix cfg5 ?e3 Map.empty =
     (Run unix cfg5 (?e3\<lparr>listAll := \<lambda>k. Inr []\<rparr>) Map.empty)
       \<lparr>calls := [CallIsTokenValid, CallListAll, CallRefreshToken, CallListAll]\<rparr>"
    by simp
  from a b c show ?thesis by (simp add: Run_first_listing_empty)
qed

subsection \<open>The download goroutines\<close>

lemma downloadFile_step_shape:
  "downloadFile_step fp cfg file io pc s = (pc', s') \<Longrightarrow>
     pcs s' = pcs s \<and> closed s' = closed s \<and> returned s' = returned s"
  by (cases pc) (auto simp: Let_def split: option.splits if_splits)

lemma worker_step_shape:
  assumes "k < length (pcs s)"
  shows "length (pcs (worker_step fp cfg cap file io k s)) = length (pcs s)
     \<and> closed (worker_step fp cfg cap file io k s) = closed s
     \<and> returned (worker_step fp cfg cap file io k s) = returned s
     \<and> (list_all (\<lambda>pc. pc = Done) (pcs s) \<longrightarrow> worker_step fp cfg cap file io k s = s)"
proof -
  obtain pc' s' where d: "downloadFile_step fp cfg file io (pcs s ! k) s = (pc', s')"
    by fastforce
  note sh = downloadFile_step_shape [OF d]
  have alldone: "list_all (\<lambda>pc. pc = Done) (pcs s) \<Longrightarrow> pcs s ! k = Done"
    using assms by (simp add: list_all_length)
  show ?thesis
    using d sh alldone
    by (cases "pcs s ! k")
       (auto simp del: downloadFile_step.simps simp: worker_step_def split: option.splits)
qed

lemma step_awaited:
  assumes "awaited (length workers) s"
  shows "awaited (length workers) (step fp cfg cap workers io ev s)"
proof (cases ev)
  case (Go k)
  show ?thesis
  proof (cases "k < length workers")
    case True
    with assms have "k < length (pcs s)" by (simp add: awaited_def)
    from worker_step_shape [OF this, of fp cfg cap "workers ! k" "io k"] assms Go True
    show ?thesis by (auto simp: awaited_def split: if_splits)
  next
    case False
    with assms Go show ?thesis by simp
  qed
next
  case (Abort k)
  with assms show ?thesis
    by (auto simp: awaited_def list_all_length split: if_splits)
next
  case (CtxDone e)
  with assms show ?thesis by (auto simp: awaited_def split: if_splits)
next
  case WaitClose
  with assms show ?thesis by (auto simp: awaited_def split: if_splits)
next
  case Receive
  with assms show ?thesis
    by (auto simp: awaited_def split: if_splits list.splits option.splits)
qed

lemma run_sched_awaited:
  "awaited (length workers) s \<Longrightarrow>
   awaited (length workers) (run_sched fp cfg cap workers io sched s)"
proof (induction sched arbitrary: s)
  case Nil
  then show ?case by simp
next
  case (Cons ev evs)
  show ?case
  proof (cases "returned s \<noteq> None")
    case True
    with Cons.prems show ?thesis by simp
  next
    case False
    from Cons.prems have "awaited (length workers) (step fp cfg cap workers io ev s)"
      by (rule step_awaited)
    from Cons.IH [OF this] False show ?thesis by simp
  qed
qed

text \<open>
  Under every schedule, \<^verbatim>\<open>downloadFiles\<close> returns \<^verbatim>\<open>nil\<close> only when every
  goroutine is done: the deletion phase of \<^verbatim>\<open>Run\<close> starts after the last download.
\<close>

lemma downloadFiles_nil_after_all_done:
  assumes "returned (downloadFiles fp cfg io sched files fs0 stats0) = Some None"
  shows "list_all (\<lambda>pc. pc = Done) (pcs (downloadFiles fp cfg io sched files fs0 stats0))"
proof -
  let ?workers = "filter (\<lambda>file. \<not> IsFolder file) files"
  let ?s0 = "\<lparr>disk = fs0, counters = stats0, pcs = replicate (length ?workers) Queued,
            semaphore = 0, errChan = [], closed = False, ctxErr = None, created = [],
            returned = None\<rparr>"
  have "awaited (length ?workers) ?s0" by (simp add: awaited_def)
  then have "awaited (length ?workers) (run_sched fp cfg (length files) ?workers io sched ?s0)"
    by (rule run_sched_awaited)
  then have "awaited (length ?workers) (downloadFiles fp cfg io sched files fs0 stats0)"
    by (simp add: downloadFiles_def Let_def)
  with assms show ?thesis by (auto simp: awaited_def split: if_splits)
qed

text \<open>
  Claim C1. When a download fails, the error is to be read only after all downloads
  in flight have finished. In the code the caller ranges over \<^verbatim>\<open>errChan\<close> while the
  goroutines run, and returns at the first error it receives. With the remote files
  \<^verbatim>\<open>/a.txt\<close>, whose download fails, and \<^verbatim>\<open>/b.txt\<close>, under the schedule below
  \<^verbatim>\<open>downloadFiles\<close> has returned the error of \<^verbatim>\<open>/a.txt\<close> while the goroutine of
  \<^verbatim>\<open>/b.txt\<close> has created its local file and is still to copy the content: the wait
  group has not been awaited and \<^verbatim>\<open>errChan\<close> is not closed.
\<close>

theorem downloadFiles_returns_at_first_error:
  "returned (downloadFiles unix cfg5
       (\<lambda>k. if k = 0 then smooth\<lparr>downloadErr := Some (Err ''connection reset'')\<rparr> else smooth)
       [Go 0, Go 1, Go 0, Go 1, Go 1, Go 0, Go 0, Receive] [fileA, fileB] Map.empty freshStats)
     = Some (Some (Wrap ''failed to download /a.txt''
                    (Wrap ''failed to download from Dropbox'' (Err ''connection reset''))))
   \<and> pcs (downloadFiles unix cfg5
       (\<lambda>k. if k = 0 then smooth\<lparr>downloadErr := Some (Err ''connection reset'')\<rparr> else smooth)
       [Go 0, Go 1, Go 0, Go 1, Go 1, Go 0, Go 0, Receive] [fileA, fileB] Map.empty freshStats)
     = [Done, Copy]
   \<and> created (downloadFiles unix cfg5
       (\<lambda>k. if k = 0 then smooth\<lparr>downloadErr := Some (Err ''connection reset'')\<rparr> else smooth)
       [Go 0, Go 1, Go 0, Go 1, Go 1, Go 0, Go 0, Receive] [fileA, fileB] Map.empty freshStats)
     = [''/backup/b.txt'']
   \<and> closed (downloadFiles unix cfg5
       (\<lambda>k. if k = 0 then smooth\<lparr>downloadErr := Some (Err ''connection reset'')\<rparr> else smooth)
       [Go 0, Go 1, Go 0, Go 1, Go 1, Go 0, Go 0, Receive] [fileA, fileB] Map.empty freshStats)
     = False"
  by (simp add: download_eval)

text \<open>
  Claim C2. The increments of the shared statistics by the download goroutines are
  to add up. In the code \<^verbatim>\<open>stats.SkippedFiles++\<close> is a read and a write with no
  lock and no atomic operation. With two remote files that are both up to date
  locally and the five slots of the semaphore, the schedule in which both goroutines
  read the counter before either writes it ends with \<^verbatim>\<open>downloadFiles\<close> returning
  \<^verbatim>\<open>nil\<close>, both goroutines done and \<^verbatim>\<open>SkippedFiles = 1\<close>; the schedule that runs
  one goroutine after the other ends with \<^verbatim>\<open>SkippedFiles = 2\<close>.
\<close>

theorem SkippedFiles_lost_update:
  "returned (downloadFiles unix cfg5 (\<lambda>k. smooth)
       [Go 0, Go 1, Go 0, Go 1, Go 0, Go 1, Go 0, Go 1, Go 0, Go 1, WaitClose, Receive]
       [fileA, fileB] upToDate freshStats) = Some None
   \<and> pcs (downloadFiles unix cfg5 (\<lambda>k. smooth)
       [Go 0, Go 1, Go 0, Go 1, Go 0, Go 1, Go 0, Go 1, Go 0, Go 1, WaitClose, Receive]
       [fileA, fileB] upToDate freshStats) = [Done, Done]
   \<and> SkippedFiles (counters (downloadFiles unix cfg5 (\<lambda>k. smooth)
       [Go 0, Go 1, Go 0, Go 1, Go 0, Go 1, Go 0, Go 1, Go 0, Go 1, WaitClose, Receive]
       [fileA, fileB] upToDate freshStats)) = 1
   \<and> SkippedFiles (counters (downloadFiles unix cfg5 (\<lambda>k. smooth)
       [Go 0, Go 0, Go 0, Go 0, Go 0, Go 1, Go 1, Go 1, Go 1, Go 1, WaitClose, Receive]
       [fileA, fileB] upToDate freshStats)) = 2"
  by (simp add: download_eval)


end
